theory Spec2Isabelle
  imports Main "HOL-Library.Sublist"
begin

section \<open>Python values used by the report generator\<close>

text \<open>
  Exceptions of the Python run time that the modelled code can raise. A function that can
  raise returns \<open>error + 'a\<close>, with \<open>Inl\<close> for the exception.
\<close>

datatype error =
    ValueError
  | TypeError
  | IndexError
  | KeyError
  | AttributeError
  | LibraryError string

text \<open>
  \<open>str(n)\<close> for an integer: the decimal digits, most significant first, with a minus
  sign for a negative number. (Recent interpreters refuse to convert numbers of more than
  4300 digits; row numbers of that size are left out of the model, here and in \<open>py_int\<close>.)
\<close>

fun digit_char :: "nat \<Rightarrow> char" where
  "digit_char d = char_of (48 + d)"

fun str_nat :: "nat \<Rightarrow> string" where
  "str_nat n = (if n < 10 then [digit_char n] else str_nat (n div 10) @ [digit_char (n mod 10)])"

declare str_nat.simps [simp del]

definition str_int :: "int \<Rightarrow> string" where
  "str_int i = (if i < 0 then CHR ''-'' # str_nat (nat (- i)) else str_nat (nat i))"

text \<open>
  Configuration values as \<open>yaml.safe_load\<close> returns them. A scalar is hashable; a list
  or a mapping is not. Mappings are lists of items with string keys. Characters are code
  points below 256.
\<close>

datatype scalar = SNone | SBool bool | SInt int | SStr string

datatype yval = Scalar scalar | YList "yval list" | YDict "(string \<times> yval) list"

fun py_str :: "scalar \<Rightarrow> string" where
  "py_str SNone = ''None''"
| "py_str (SBool b) = (if b then ''True'' else ''False'')"
| "py_str (SInt i) = str_int i"
| "py_str (SStr s) = s"

text \<open>Truth value of a configuration value: \<open>None\<close>, \<open>False\<close>, zero and empty containers are false.\<close>

fun py_truthy :: "yval \<Rightarrow> bool" where
  "py_truthy (Scalar SNone) = False"
| "py_truthy (Scalar (SBool b)) = b"
| "py_truthy (Scalar (SInt i)) = (i \<noteq> 0)"
| "py_truthy (Scalar (SStr s)) = (s \<noteq> [])"
| "py_truthy (YList xs) = (xs \<noteq> [])"
| "py_truthy (YDict d) = (d \<noteq> [])"

text \<open>
  \<open>v.get(k)\<close> and \<open>v.get(k, default)\<close>: only a mapping has \<open>get\<close>; on anything else the
  attribute lookup raises \<open>AttributeError\<close>.
\<close>

definition dict_get :: "(string \<times> yval) list \<Rightarrow> string \<Rightarrow> yval \<Rightarrow> yval" where
  "dict_get d k dflt = (case map_of d k of None \<Rightarrow> dflt | Some v \<Rightarrow> v)"

fun py_get_default :: "yval \<Rightarrow> string \<Rightarrow> yval \<Rightarrow> error + yval" where
  "py_get_default (YDict d) k dflt = Inr (dict_get d k dflt)"
| "py_get_default _ k dflt = Inl AttributeError"

definition py_get :: "yval \<Rightarrow> string \<Rightarrow> error + yval" where
  "py_get v k = py_get_default v k (Scalar SNone)"

text \<open>
  \<open>for x in v\<close>: a list gives its items, a mapping its keys, a string its characters;
  \<open>None\<close>, a boolean or an integer is not iterable.
\<close>

fun py_iter :: "yval \<Rightarrow> error + yval list" where
  "py_iter (YList xs) = Inr xs"
| "py_iter (YDict d) = Inr (map (\<lambda>kv. Scalar (SStr (fst kv))) d)"
| "py_iter (Scalar (SStr s)) = Inr (map (\<lambda>c. Scalar (SStr [c])) s)"
| "py_iter (Scalar _) = Inl TypeError"

text \<open>
  Equality of dictionary keys: \<open>True == 1\<close> and \<open>False == 0\<close> in Python, and equal keys
  have equal hashes; values of different kinds are otherwise different keys.
\<close>

fun key_num :: "scalar \<Rightarrow> int option" where
  "key_num (SBool b) = Some (if b then 1 else 0)"
| "key_num (SInt i) = Some i"
| "key_num _ = None"

definition py_key_eq :: "scalar \<Rightarrow> scalar \<Rightarrow> bool" where
  "py_key_eq a b = (case (key_num a, key_num b) of
                      (Some i, Some j) \<Rightarrow> i = j
                    | (None, None) \<Rightarrow> a = b
                    | _ \<Rightarrow> False)"

text \<open>
  \<open>d[k] = v\<close> on an insertion-ordered dictionary: an existing key keeps its place (and
  the key object stored first), a new key goes to the end.
\<close>

fun dict_set :: "scalar \<Rightarrow> 'v \<Rightarrow> (scalar \<times> 'v) list \<Rightarrow> (scalar \<times> 'v) list" where
  "dict_set k v [] = [(k, v)]"
| "dict_set k v ((k', v') # rest) =
     (if py_key_eq k k' then (k', v) # rest else (k', v') # dict_set k v rest)"

subsection \<open>String operations\<close>

text \<open>\<open>s.lower()\<close>: the upper-case letters of ASCII and of Latin-1 move up by 32.\<close>

definition lower_char :: "char \<Rightarrow> char" where
  "lower_char c =
     (let n = (of_char c :: nat)
      in if (65 \<le> n \<and> n \<le> 90) \<or> (192 \<le> n \<and> n \<le> 222 \<and> n \<noteq> 215) then char_of (n + 32) else c)"

definition py_lower :: "string \<Rightarrow> string" where
  "py_lower s = map lower_char s"

text \<open>\<open>k in s\<close> for strings: \<open>k\<close> occurs in \<open>s\<close> as a contiguous block.\<close>

definition py_in :: "string \<Rightarrow> string \<Rightarrow> bool" where
  "py_in k s = sublist k s"

text \<open>
  \<open>s.split(sep)\<close> with a one-character separator; the result is never empty, so its
  item 0 is always there.
\<close>

fun py_split :: "char \<Rightarrow> string \<Rightarrow> string list" where
  "py_split sep [] = [[]]"
| "py_split sep (c # cs) =
     (if c = sep then [] # py_split sep cs
      else (case py_split sep cs of
              [] \<Rightarrow> [[c]]
            | w # ws \<Rightarrow> (c # w) # ws))"

text \<open>\<open>xs[i]\<close> for \<open>i \<ge> 0\<close>: \<open>IndexError\<close> out of range.\<close>

definition py_item :: "'a list \<Rightarrow> nat \<Rightarrow> error + 'a" where
  "py_item xs i = (if i < length xs then Inr (xs ! i) else Inl IndexError)"

text \<open>\<open>s.rstrip(chars)\<close>: drop trailing characters that are in \<open>chars\<close>.\<close>

definition py_rstrip :: "string \<Rightarrow> string \<Rightarrow> string" where
  "py_rstrip chars s = rev (dropWhile (\<lambda>c. c \<in> set chars) (rev s))"

text \<open>The letters \<open>A\<close> to \<open>Z\<close>.\<close>

definition upper_letter :: "char \<Rightarrow> bool" where
  "upper_letter c = (65 \<le> (of_char c :: nat) \<and> (of_char c :: nat) \<le> 90)"

text \<open>
  \<open>c.isdigit()\<close>: the ASCII digits, and the superscript digits of Latin-1 (code points
  178, 179 and 185), which \<open>int\<close> does not accept.
\<close>

definition ascii_digit :: "char \<Rightarrow> bool" where
  "ascii_digit c = (48 \<le> (of_char c :: nat) \<and> (of_char c :: nat) \<le> 57)"

definition py_isdigit :: "char \<Rightarrow> bool" where
  "py_isdigit c = (ascii_digit c \<or> (of_char c :: nat) \<in> {178, 179, 185})"

definition digits_value :: "string \<Rightarrow> int" where
  "digits_value s = foldl (\<lambda>acc c. 10 * acc + (of_char c - 48)) 0 s"

text \<open>\<open>int(s)\<close> on a string of \<open>isdigit\<close> characters: \<open>ValueError\<close> when it is empty or holds a superscript.\<close>

definition py_int :: "string \<Rightarrow> error + int" where
  "py_int s = (if s \<noteq> [] \<and> list_all ascii_digit s then Inr (digits_value s) else Inl ValueError)"

text \<open>
  \<open>ord(s)\<close> needs a string of length one. \<open>chr(n)\<close> is defined up to code point
  1114111; the model holds code points below 256 and answers \<open>LibraryError\<close> for a
  character it cannot hold.
\<close>

definition py_ord :: "string \<Rightarrow> error + int" where
  "py_ord s = (case s of [c] \<Rightarrow> Inr (of_char c) | _ \<Rightarrow> Inl TypeError)"

definition py_chr :: "int \<Rightarrow> error + string" where
  "py_chr n = (if n < 0 \<or> 1114111 < n then Inl ValueError
               else if n < 256 then Inr [char_of n]
               else Inl (LibraryError ''code point outside the modelled characters''))"

section \<open>Column inference: \<open>auto_number_format\<close> and \<open>best_width\<close>\<close>

text \<open>
  A pandas Series as the two functions read it: its name (a column label), its dtype and
  its cells. The cells are kept as the strings \<open>series.astype(str)\<close> gives, which is all
  \<open>best_width\<close> looks at. The dtype is one of the kinds the pandas type predicates tell
  apart; \<open>Other\<close> stands for complex, timedelta, categorical and the like.
\<close>

datatype dtype = Datetime64 | Boolean | Integer | Floating | Object | String | Other

record series =
  name :: scalar
  dtype :: dtype
  cells :: "string list"

definition is_datetime64_any_dtype :: "series \<Rightarrow> bool" where
  "is_datetime64_any_dtype s = (dtype s = Datetime64)"

definition is_bool_dtype :: "series \<Rightarrow> bool" where
  "is_bool_dtype s = (dtype s = Boolean)"

definition is_integer_dtype :: "series \<Rightarrow> bool" where
  "is_integer_dtype s = (dtype s = Integer)"

definition is_float_dtype :: "series \<Rightarrow> bool" where
  "is_float_dtype s = (dtype s = Floating)"

text \<open>
  \<^verbatim>\<open>
  def auto_number_format(series: pd.Series) -> Optional[str]:
      if pd.api.types.is_datetime64_any_dtype(series):
          return "yyyy-mm-dd"
      if pd.api.types.is_bool_dtype(series):
          return None
      if pd.api.types.is_integer_dtype(series) or pd.api.types.is_float_dtype(series):
          name = str(series.name).lower()
          if any(k in name for k in ["amount", "revenue", "price", "cost", "total", "sales"]):
              return "$#,##0.00"
          return "#,##0.00"
      return None
  \<close>
\<close>

definition currency_keywords :: "string list" where
  "currency_keywords = [''amount'', ''revenue'', ''price'', ''cost'', ''total'', ''sales'']"

definition auto_number_format :: "series \<Rightarrow> string option" where
  "auto_number_format series =
     (if is_datetime64_any_dtype series then Some ''yyyy-mm-dd''
      else if is_bool_dtype series then None
      else if is_integer_dtype series \<or> is_float_dtype series then
        (let name = py_lower (py_str (name series))
         in if list_ex (\<lambda>k. py_in k name) currency_keywords then Some ''$#,##0.00''
            else Some ''#,##0.00'')
      else None)"

text \<open>\<open>max(xs)\<close> on a list: \<open>ValueError\<close> on the empty list, otherwise the largest item.\<close>

fun py_max :: "int list \<Rightarrow> error + int" where
  "py_max [] = Inl ValueError"
| "py_max (x # xs) = Inr (fold (\<lambda>y m. if m < y then y else m) xs x)"

text \<open>
  \<^verbatim>\<open>
  def best_width(series: pd.Series, max_width: int = 60) -> int:
      s = series.astype(str)
      maxlen = max([len(str(series.name))] + s.map(len).tolist())
      return min(maxlen + 2, max_width)
  \<close>
\<close>

definition best_width :: "series \<Rightarrow> int \<Rightarrow> error + int" where
  "best_width series max_width =
     (case py_max ([int (length (py_str (name series)))] @ map (\<lambda>c. int (length c)) (cells series)) of
        Inl e \<Rightarrow> Inl e
      | Inr maxlen \<Rightarrow> Inr (min (maxlen + 2) max_width))"

definition best_width_default :: "series \<Rightarrow> error + int" where
  "best_width_default series = best_width series 60"

section \<open>Address translation: the \<open>a1\<close> helper of \<open>main\<close>\<close>

text \<open>
  \<^verbatim>\<open>
  def a1(col_idx: int, row_idx: int) -> str:
      col_letters = ""
      col_idx += 1
      while col_idx:
          col_idx, remainder = divmod(col_idx - 1, 26)
          col_letters = chr(65 + remainder) + col_letters
      return f"{col_letters}{row_idx+1}"
  \<close>
  The loop runs while \<open>col_idx\<close> is not zero. Python's \<open>divmod\<close> rounds towards minus
  infinity, as \<open>div\<close> and \<open>mod\<close> on \<open>int\<close> do. For a column index below \<open>-1\<close> the loop
  never ends (the running index stays at \<open>-1\<close>), so the loop is a partial function and
  \<open>None\<close> stands for a run that does not return.
\<close>

partial_function (option) a1_loop :: "int \<Rightarrow> string \<Rightarrow> string option" where
  "a1_loop col_idx col_letters =
     (if col_idx = 0 then Some col_letters
      else a1_loop ((col_idx - 1) div 26)
             (char_of (65 + (col_idx - 1) mod 26) # col_letters))"

definition to_letters :: "int \<Rightarrow> string option" where
  "to_letters col_idx = a1_loop (col_idx + 1) []"

definition a1 :: "int \<Rightarrow> int \<Rightarrow> string option" where
  "a1 col_idx row_idx =
     (case to_letters col_idx of
        None \<Rightarrow> None
      | Some col_letters \<Rightarrow> Some (col_letters @ str_int (row_idx + 1)))"

text \<open>
  The source has no decoder. To state the round trip, \<open>from_letters\<close> reads a letter
  string as a bijective base-26 numeral (\<open>A\<close> is the digit 1, \<open>Z\<close> the digit 26, most
  significant letter first) and returns the zero-based column index.
\<close>

definition letters_value :: "string \<Rightarrow> int" where
  "letters_value s = foldl (\<lambda>acc ch. 26 * acc + (of_char ch - 64)) 0 s"

definition from_letters :: "string \<Rightarrow> int" where
  "from_letters s = letters_value s - 1"

declare a1_loop.simps [code]

text \<open>
  The range \<open>main\<close> rebuilds for a pivot sheet from the shape of the pivot frame:
  \<^verbatim>\<open>
  rows, cols = piv_df.shape
  start = a1(0, 0)
  end = a1(cols - 1, rows)
  ... f"{start}:{end}" ...
  \<close>
\<close>

definition main_range :: "int \<Rightarrow> int \<Rightarrow> string option" where
  "main_range rows cols =
     (case a1 0 0 of
        None \<Rightarrow> None
      | Some start \<Rightarrow>
          (case a1 (cols - 1) rows of
             None \<Rightarrow> None
           | Some end' \<Rightarrow> Some (start @ '':'' @ end')))"

section \<open>Chart binding: \<open>add_chart_from_table\<close>\<close>

text \<open>
  \<^verbatim>\<open>
  first_col_letter = table_range.split(":")[0].rstrip("0123456789")
  start_row = int("".join([c for c in table_range.split(":")[0] if c.isdigit()]))
  chart.add_series({
      "categories": f"={sheet_name}!{table_range.split(':')[0]}:{first_col_letter}{table_range.split(':')[1][len(first_col_letter):]}",
      "values": f"={sheet_name}!{chr(ord(first_col_letter)+1)}{start_row}:{table_range.split(':')[1]}",
  })
  \<close>
  The two range formulas of the one series the chart gets, or the exception raised while
  they are built, in the order Python evaluates them.
\<close>

record chart_series =
  categories :: string
  values_ref :: string

definition chart_ranges :: "string \<Rightarrow> string \<Rightarrow> error + chart_series" where
  "chart_ranges sheet_name table_range =
     (let parts = py_split CHR '':'' table_range;
          first = hd parts;
          first_col_letter = py_rstrip ''0123456789'' first
      in case py_int (filter py_isdigit first) of
           Inl e \<Rightarrow> Inl e
         | Inr start_row \<Rightarrow>
             (case py_item parts 1 of
                Inl e \<Rightarrow> Inl e
              | Inr end_ref \<Rightarrow>
                  (let cats = ''='' @ sheet_name @ ''!'' @ first @ '':'' @ first_col_letter
                              @ drop (length first_col_letter) end_ref
                   in case py_ord first_col_letter of
                        Inl e \<Rightarrow> Inl e
                      | Inr code \<Rightarrow>
                          (case py_chr (code + 1) of
                             Inl e \<Rightarrow> Inl e
                           | Inr next_letter \<Rightarrow>
                               Inr \<lparr> categories = cats,
                                     values_ref = ''='' @ sheet_name @ ''!'' @ next_letter
                                                  @ str_int start_row @ '':'' @ end_ref \<rparr>))))"

record chart =
  chart_type :: string
  chart_data :: chart_series
  chart_title :: "scalar option"
  chart_anchor :: string

text \<open>
  The chart \<open>add_chart_from_table\<close> hands to the writer: the chart type, the one series,
  the title when it is true as a condition (\<open>if title:\<close>), and the anchor cell \<open>B2\<close>.
\<close>

definition add_chart_from_table :: "string \<Rightarrow> string \<Rightarrow> string \<Rightarrow> scalar \<Rightarrow> error + chart" where
  "add_chart_from_table sheet_name table_range ctype title =
     (case chart_ranges sheet_name table_range of
        Inl e \<Rightarrow> Inl e
      | Inr sr \<Rightarrow>
          Inr \<lparr> chart_type = ctype, chart_data = sr,
                chart_title = (if py_truthy (Scalar title) then Some title else None),
                chart_anchor = ''B2'' \<rparr>)"

section \<open>Pivot synthesis: \<open>build_pivots\<close>\<close>

text \<open>
  The pandas and XlsxWriter operations are parameters of the model: each takes what the
  source passes and may raise. Frames (\<open>'df\<close>) and the workbook under construction
  (\<open>'wb\<close>) are left abstract. \<open>write_df_to_sheet\<close> consists of calls of the two libraries and is
  a parameter as well; \<open>pivot_frame\<close> stands for \<open>pd.pivot_table\<close> with the arguments of the
  source followed by the flattening of a two-level column index and \<open>reset_index\<close>.
\<close>

record path =
  stem :: string
  suffix :: string

record pivot_args =
  pa_index :: yval
  pa_columns :: yval
  pa_values :: yval
  pa_aggfunc :: yval
  pa_fill_value :: yval
  pa_dropna :: bool
  pa_margins :: yval

record sheet_options =
  make_table :: bool
  table_style :: yval
  autofilter :: bool
  freeze_header :: bool

record ('df, 'wb) env =
  read_csv :: "path \<Rightarrow> string \<Rightarrow> yval \<Rightarrow> error + 'df"
  read_json :: "path \<Rightarrow> error + 'df"
  read_parquet :: "path \<Rightarrow> error + 'df"
  pivot_frame :: "'df \<Rightarrow> pivot_args \<Rightarrow> error + 'df"
  shape :: "'df \<Rightarrow> nat \<times> nat"
  write_df_to_sheet :: "'df \<Rightarrow> string \<Rightarrow> sheet_options \<Rightarrow> 'wb \<Rightarrow> error + 'wb"
  insert_chart :: "string \<Rightarrow> chart \<Rightarrow> 'wb \<Rightarrow> error + 'wb"
  writer_close :: "'wb \<Rightarrow> error + 'wb"

text \<open>
  \<open>src not in frames\<close>, then \<open>frames[src]\<close>: the keys of \<open>frames\<close> are strings, so only a
  string can be found; another scalar is absent; a list or mapping cannot be hashed.
\<close>

fun frames_lookup :: "(string \<rightharpoonup> 'df) \<Rightarrow> yval \<Rightarrow> error + 'df option" where
  "frames_lookup frames (Scalar (SStr n)) = Inr (frames n)"
| "frames_lookup frames (Scalar _) = Inr None"
| "frames_lookup frames _ = Inl TypeError"

text \<open>
  One pass of the loop body of \<open>build_pivots\<close>:
  \<^verbatim>\<open>
  src = p.get("source")
  if src not in frames:
      print(f"[warn] pivot source not found: {src}", file=sys.stderr)
      continue
  df = frames[src]
  ...
  pivot = pd.pivot_table(df, index=index, columns=columns, values=values,
                         aggfunc=aggfunc, fill_value=fillna, dropna=False,
                         margins=p.get("margins", False))
  ...
  pivots[p.get("name", f"pivot_{src}")] = pivot.reset_index()
  \<close>
  It raises, or skips the specification with a warning, or gives the entry to store.
\<close>

datatype 'df pivot_step = Skipped string | Built scalar 'df

fun pivot_one :: "('df, 'wb) env \<Rightarrow> (string \<rightharpoonup> 'df) \<Rightarrow> yval \<Rightarrow> error + 'df pivot_step" where
  "pivot_one E frames (YDict p) =
     (let src = dict_get p ''source'' (Scalar SNone)
      in case frames_lookup frames src of
           Inl e \<Rightarrow> Inl e
         | Inr None \<Rightarrow>
             (case src of
                Scalar s \<Rightarrow> Inr (Skipped (''[warn] pivot source not found: '' @ py_str s))
              | _ \<Rightarrow> Inl TypeError)
         | Inr (Some df) \<Rightarrow>
             (let args = \<lparr> pa_index = dict_get p ''index'' (Scalar SNone),
                           pa_columns = dict_get p ''columns'' (Scalar SNone),
                           pa_values = dict_get p ''values'' (Scalar SNone),
                           pa_aggfunc = dict_get p ''aggfunc'' (Scalar (SStr ''sum'')),
                           pa_fill_value = dict_get p ''fillna'' (Scalar (SInt 0)),
                           pa_dropna = False,
                           pa_margins = dict_get p ''margins'' (Scalar (SBool False)) \<rparr>
              in case pivot_frame E df args of
                   Inl e \<Rightarrow> Inl e
                 | Inr pivot \<Rightarrow>
                     (case src of
                        Scalar s \<Rightarrow>
                          (case dict_get p ''name'' (Scalar (SStr (''pivot_'' @ py_str s))) of
                             Scalar key \<Rightarrow> Inr (Built key pivot)
                           | _ \<Rightarrow> Inl TypeError)
                      | _ \<Rightarrow> Inl TypeError)))"
| "pivot_one E frames _ = Inl AttributeError"

text \<open>
  The loop over the specifications. The warnings printed so far are returned with the
  outcome, whether the loop ends or an exception leaves it.
\<close>

fun pivots_loop ::
  "('df, 'wb) env \<Rightarrow> (string \<rightharpoonup> 'df) \<Rightarrow> yval list \<Rightarrow> (scalar \<times> 'df) list \<Rightarrow> string list
     \<Rightarrow> string list \<times> (error + (scalar \<times> 'df) list)" where
  "pivots_loop E frames [] pivots err = (err, Inr pivots)"
| "pivots_loop E frames (p # ps) pivots err =
     (case pivot_one E frames p of
        Inl e \<Rightarrow> (err, Inl e)
      | Inr (Skipped w) \<Rightarrow> pivots_loop E frames ps pivots (err @ [w])
      | Inr (Built key pivot) \<Rightarrow> pivots_loop E frames ps (dict_set key pivot pivots) err)"

definition build_pivots ::
  "('df, 'wb) env \<Rightarrow> yval \<Rightarrow> (string \<rightharpoonup> 'df) \<Rightarrow> string list \<times> (error + (scalar \<times> 'df) list)" where
  "build_pivots E summary_cfg frames =
     (case py_iter summary_cfg of
        Inl e \<Rightarrow> ([], Inl e)
      | Inr ps \<Rightarrow> pivots_loop E frames ps [] [])"

section \<open>Orchestration: \<open>read_frame\<close> and \<open>main\<close>\<close>

text \<open>
  \<^verbatim>\<open>
  def read_frame(path: Path, date_cols: Optional[List[str]] = None) -> pd.DataFrame:
      ext = path.suffix.lower()
      if ext == ".csv":
          return pd.read_csv(path, parse_dates=date_cols or True)
      if ext == ".tsv":
          return pd.read_csv(path, sep="\t", parse_dates=date_cols or True)
      if ext == ".json":
          return pd.read_json(path)
      if ext == ".parquet":
          return pd.read_parquet(path)
      raise ValueError(f"Unsupported file extension: {ext}")
  \<close>
\<close>

definition or_true :: "yval \<Rightarrow> yval" where
  "or_true v = (if py_truthy v then v else Scalar (SBool True))"

definition read_frame :: "('df, 'wb) env \<Rightarrow> path \<Rightarrow> yval \<Rightarrow> error + 'df" where
  "read_frame E p date_cols =
     (let ext = py_lower (suffix p)
      in if ext = ''.csv'' then read_csv E p '','' (or_true date_cols)
         else if ext = ''.tsv'' then read_csv E p [char_of (9::nat)] (or_true date_cols)
         else if ext = ''.json'' then read_json E p
         else if ext = ''.parquet'' then read_parquet E p
         else Inl ValueError)"

text \<open>
  The date hints of one source:
  \<^verbatim>\<open>
  date_cols = None
  for s in (cfg.get("sources") or []):
      if s.get("name") == name and s.get("date_cols"):
          date_cols = s.get("date_cols")
          break
  \<close>
\<close>

fun date_cols_loop :: "yval list \<Rightarrow> string \<Rightarrow> error + yval" where
  "date_cols_loop [] nm = Inr (Scalar SNone)"
| "date_cols_loop (s # ss) nm =
     (case py_get s ''name'' of
        Inl e \<Rightarrow> Inl e
      | Inr n \<Rightarrow>
          if n = Scalar (SStr nm) then
            (case py_get s ''date_cols'' of
               Inl e \<Rightarrow> Inl e
             | Inr dc \<Rightarrow> if py_truthy dc then Inr dc else date_cols_loop ss nm)
          else date_cols_loop ss nm)"

definition find_date_cols :: "yval \<Rightarrow> string \<Rightarrow> error + yval" where
  "find_date_cols cfg nm =
     (case py_get cfg ''sources'' of
        Inl e \<Rightarrow> Inl e
      | Inr srcs \<Rightarrow>
          (case py_iter (if py_truthy srcs then srcs else YList []) of
             Inl e \<Rightarrow> Inl e
           | Inr ss \<Rightarrow> date_cols_loop ss nm))"

record args =
  out :: string
  sheet_prefix :: string
  no_table :: bool
  no_autofilter :: bool
  no_freeze :: bool

text \<open>
  The names \<open>main\<close> gives to one source:
  \<^verbatim>\<open>
  name = p.stem[:31]  # Excel sheet name limit
  sheet_name = f"{args.sheet_prefix}{name}"
  \<close>
  and to one pivot sheet: \<^verbatim>\<open>sname = f"Summary - {piv_name}"[:31]\<close>.
\<close>

definition source_name :: "path \<Rightarrow> string" where
  "source_name p = take 31 (stem p)"

definition source_sheet_name :: "args \<Rightarrow> path \<Rightarrow> string" where
  "source_sheet_name a p = sheet_prefix a @ source_name p"

definition summary_sheet_name :: "scalar \<Rightarrow> string" where
  "summary_sheet_name piv_name = take 31 (''Summary - '' @ py_str piv_name)"

record ('df, 'wb) run_state =
  frames :: "string \<rightharpoonup> 'df"
  book :: "'wb"

text \<open>The loop of \<open>main\<close> over the input paths: read, register, write the sheet.\<close>

fun load_sources ::
  "('df, 'wb) env \<Rightarrow> yval \<Rightarrow> args \<Rightarrow> path list \<Rightarrow> ('df, 'wb) run_state
     \<Rightarrow> error + ('df, 'wb) run_state" where
  "load_sources E cfg a [] st = Inr st"
| "load_sources E cfg a (p # ps) st =
     (let name = source_name p; sheet_name = source_sheet_name a p
      in case find_date_cols cfg name of
           Inl e \<Rightarrow> Inl e
         | Inr date_cols \<Rightarrow>
             (case read_frame E p date_cols of
                Inl e \<Rightarrow> Inl e
              | Inr df \<Rightarrow>
                  (case py_get_default cfg ''table_style'' (Scalar (SStr ''Table Style Light 9'')) of
                     Inl e \<Rightarrow> Inl e
                   | Inr style \<Rightarrow>
                       (case write_df_to_sheet E df sheet_name
                               \<lparr> make_table = \<not> no_table a, table_style = style,
                                 autofilter = \<not> no_autofilter a, freeze_header = \<not> no_freeze a \<rparr>
                               (book st) of
                          Inl e \<Rightarrow> Inl e
                        | Inr wb \<Rightarrow>
                            load_sources E cfg a ps
                              \<lparr> frames = (frames st)(name \<mapsto> df), book = wb \<rparr>))))"

text \<open>
  The loop of \<open>main\<close> over the pivots, in the order of the dictionary:
  \<^verbatim>\<open>
  for piv_name, piv_df in pivots.items():
      sname = f"Summary - {piv_name}"[:31]
      write_df_to_sheet(piv_df, writer, sname, make_table=True)
      rows, cols = piv_df.shape
      ...
      start = a1(0, 0)
      end = a1(cols - 1, rows)
      add_chart_from_table(writer, sname, f"{start}:{end}", chart_type="column", title=piv_name)
  \<close>
  \<open>None\<close> is a run in which \<open>a1\<close> does not return.
\<close>

fun summary_sheets ::
  "('df, 'wb) env \<Rightarrow> (scalar \<times> 'df) list \<Rightarrow> 'wb \<Rightarrow> (error + 'wb) option" where
  "summary_sheets E [] wb = Some (Inr wb)"
| "summary_sheets E ((piv_name, piv_df) # rest) wb =
     (let sname = summary_sheet_name piv_name
      in case write_df_to_sheet E piv_df sname
                \<lparr> make_table = True, table_style = Scalar (SStr ''Table Style Light 9''),
                  autofilter = True, freeze_header = True \<rparr> wb of
           Inl e \<Rightarrow> Some (Inl e)
         | Inr wb1 \<Rightarrow>
             (case shape E piv_df of
                (rows, cols) \<Rightarrow>
                  (case main_range (int rows) (int cols) of
                     None \<Rightarrow> None
                   | Some rng \<Rightarrow>
                       (case add_chart_from_table sname rng ''column'' piv_name of
                          Inl e \<Rightarrow> Some (Inl e)
                        | Inr ch \<Rightarrow>
                            (case insert_chart E sname ch wb1 of
                               Inl e \<Rightarrow> Some (Inl e)
                             | Inr wb2 \<Rightarrow> summary_sheets E rest wb2)))))"

text \<open>
  \<open>main\<close>, from the gathered input paths and the loaded configuration on. A run raises,
  or returns an exit code (with the workbook when the writer was closed), or hangs; the
  lines printed to the standard output and to the diagnostic stream come with it.
\<close>

datatype 'wb outcome = Raised error | Exit int "'wb option" | Hangs

record 'wb run =
  stdout :: "string list"
  stderr :: "string list"
  outcome :: "'wb outcome"

definition raised :: "string list \<Rightarrow> error \<Rightarrow> 'wb run" where
  "raised err e = \<lparr> stdout = [], stderr = err, outcome = Raised e \<rparr>"

text \<open>The end of a run that got through: \<^verbatim>\<open>writer.close(); print(f"Wrote {args.out}"); return 0\<close>.\<close>

definition finish :: "('df, 'wb) env \<Rightarrow> args \<Rightarrow> string list \<Rightarrow> 'wb \<Rightarrow> 'wb run" where
  "finish E a err wb =
     (case writer_close E wb of
        Inl e \<Rightarrow> raised err e
      | Inr saved \<Rightarrow>
          \<lparr> stdout = [''Wrote '' @ out a], stderr = err, outcome = Exit 0 (Some saved) \<rparr>)"

definition main :: "('df, 'wb) env \<Rightarrow> yval \<Rightarrow> args \<Rightarrow> path list \<Rightarrow> 'wb \<Rightarrow> 'wb run" where
  "main E cfg a input_paths new_book =
     (if input_paths = [] then
        \<lparr> stdout = [''No input files found.''], stderr = [], outcome = Exit 2 None \<rparr>
      else
        case load_sources E cfg a input_paths \<lparr> frames = Map.empty, book = new_book \<rparr> of
          Inl e \<Rightarrow> raised [] e
        | Inr st \<Rightarrow>
            (case py_get cfg ''pivots'' of
               Inl e \<Rightarrow> raised [] e
             | Inr summary_cfg \<Rightarrow>
                 if py_truthy summary_cfg then
                   (case build_pivots E summary_cfg (frames st) of
                      (err, Inl e) \<Rightarrow> raised err e
                    | (err, Inr pivots) \<Rightarrow>
                        (case summary_sheets E pivots (book st) of
                           None \<Rightarrow> \<lparr> stdout = [], stderr = err, outcome = Hangs \<rparr>
                         | Some (Inl e) \<Rightarrow> raised err e
                         | Some (Inr wb) \<Rightarrow> finish E a err wb))
                 else finish E a [] (book st)))"

text \<open>
  What the specification calls containing a keyword regardless of case: some block of the
  name is the keyword up to the case of its letters.
\<close>

definition contains_ci :: "string \<Rightarrow> string \<Rightarrow> bool" where
  "contains_ci s k = (\<exists>pre mid post. s = pre @ mid @ post \<and> py_lower mid = py_lower k)"

text \<open>The longest text of a column, the header included.\<close>

definition widest :: "series \<Rightarrow> int" where
  "widest s = Max (insert (int (length (py_str (name s)))) ((\<lambda>c. int (length c)) ` set (cells s)))"

section \<open>A recording environment\<close>

text \<open>
  An environment for running the model on concrete inputs: a frame is the number of its
  rows, every reader gives a frame with as many rows as the stem has characters, the pivot
  step returns the frame it is given, and the workbook is the list of the sheet names
  written so far.
\<close>

definition demo_env :: "(nat, string list) env" where
  "demo_env = \<lparr> read_csv = (\<lambda>p sep dates. Inr (length (stem p))),
                read_json = (\<lambda>p. Inr (length (stem p))),
                read_parquet = (\<lambda>p. Inr (length (stem p))),
                pivot_frame = (\<lambda>df args. Inr df),
                shape = (\<lambda>df. (df, 3)),
                write_df_to_sheet = (\<lambda>df sheet_name opts wb. Inr (wb @ [sheet_name])),
                insert_chart = (\<lambda>sheet_name ch wb. Inr wb),
                writer_close = (\<lambda>wb. Inr wb) \<rparr>"

definition demo_args :: args where
  "demo_args = \<lparr> out = ''report.xlsx'', sheet_prefix = ''Q_'', no_table = False,
                 no_autofilter = False, no_freeze = False \<rparr>"

definition long_path :: path where
  "long_path = \<lparr> stem = ''a_very_long_file_stem_of_more_than_31_characters'', suffix = ''.csv'' \<rparr>"

definition sales_path :: path where
  "sales_path = \<lparr> stem = ''sales'', suffix = ''.csv'' \<rparr>"

definition bad_then_good :: yval where
  "bad_then_good = YList [Scalar (SStr ''oops''), YDict [(''source'', Scalar (SStr ''sales''))]]"

definition north_path :: path where
  "north_path = \<lparr> stem = ''quarterly_sales_report_for_region_north'', suffix = ''.csv'' \<rparr>"

definition south_path :: path where
  "south_path = \<lparr> stem = ''quarterly_sales_report_for_region_south_v2'', suffix = ''.CSV'' \<rparr>"

definition both_loaded :: "(nat, string list) run_state" where
  "both_loaded = \<lparr> frames = [''quarterly_sales_report_for_regi'' \<mapsto> length (stem south_path)],
                    book = [''Q_quarterly_sales_report_for_regi'', ''Q_quarterly_sales_report_for_regi''] \<rparr>"

section \<open>Column letters: the round trip\<close>

lemma letters_value_snoc:
  "letters_value (s @ [ch]) = 26 * letters_value s + (of_char ch - 64)"
  by (simp add: letters_value_def)

lemma letter_digit:
  assumes "0 \<le> r" "r < 26"
  shows "of_char (char_of (65 + r :: int)) - 64 = r + (1::int)"
proof -
  have "(65 + r) mod 256 = 65 + r" using assms by simp
  then show ?thesis by (simp add: of_char_of)
qed

lemma upper_letter_char_of:
  assumes "0 \<le> r" "r < 26"
  shows "upper_letter (char_of (65 + r :: int))"
proof -
  have "(of_char (char_of (65 + r :: int)) :: int) = 65 + r"
    using letter_digit [OF assms] by simp
  then have "int (of_char (char_of (65 + r :: int)) :: nat) = 65 + r"
    by (simp add: of_char_def)
  then show ?thesis using assms unfolding upper_letter_def by linarith
qed

text \<open>
  From a non-negative running index the loop returns: it puts in front of the
  accumulator the upper-case letters whose bijective base-26 value is the index.
\<close>

lemma a1_loop_value:
  "\<exists>ls. a1_loop (int n) acc = Some (ls @ acc) \<and> letters_value ls = int n
        \<and> list_all upper_letter ls \<and> (0 < n \<longrightarrow> ls \<noteq> [])"
proof (induction n arbitrary: acc rule: less_induct)
  case (less n)
  show ?case
  proof (cases "n = 0")
    case True
    then show ?thesis by (simp add: a1_loop.simps letters_value_def)
  next
    case False
    define q where "q = (int n - 1) div 26"
    define r where "r = (int n - 1) mod 26"
    define ch where "ch = (char_of (65 + r) :: char)"
    have q0: "0 \<le> q" and qn: "q < int n" using False by (auto simp: q_def)
    have r: "0 \<le> r" "r < 26" by (auto simp: r_def)
    have n_eq: "int n = 26 * q + r + 1" by (simp add: q_def r_def)
    have "nat q < n" using q0 qn by linarith
    from less.IH [OF this, of "ch # acc"] q0
    obtain ls where ls: "a1_loop q (ch # acc) = Some (ls @ ch # acc)" "letters_value ls = q"
        "list_all upper_letter ls"
      by auto
    have "a1_loop (int n) acc = a1_loop q (ch # acc)"
      using False by (subst a1_loop.simps) (simp add: q_def r_def ch_def)
    then have "a1_loop (int n) acc = Some ((ls @ [ch]) @ acc)" using ls by simp
    moreover have "letters_value (ls @ [ch]) = int n"
      using ls(2) letter_digit [OF r] by (simp add: letters_value_snoc ch_def n_eq)
    moreover have "list_all upper_letter (ls @ [ch])"
      using ls(3) upper_letter_char_of [OF r] by (simp add: ch_def)
    ultimately show ?thesis by blast
  qed
qed

lemma to_letters_round_trip:
  assumes "0 \<le> c"
  shows "\<exists>ls. to_letters c = Some ls \<and> from_letters ls = c \<and> list_all upper_letter ls \<and> ls \<noteq> []"
proof -
  from a1_loop_value [of "nat (c + 1)" "[]"] assms
  show ?thesis by (auto simp: to_letters_def from_letters_def)
qed

text \<open>
  Claim C1. For every column index \<open>c \<ge> 0\<close> the letter loop of \<open>a1\<close> returns, and reading
  its letters back as a bijective base-26 numeral gives \<open>c\<close> again; the indices 0, 25, 26,
  701 and 702 give \<open>A\<close>, \<open>Z\<close>, \<open>AA\<close>, \<open>ZZ\<close> and \<open>AAA\<close>.
\<close>

theorem column_letters_round_trip:
  "(\<forall>c\<ge>0. \<exists>ls. to_letters c = Some ls \<and> from_letters ls = c)
   \<and> to_letters 0 = Some ''A'' \<and> to_letters 25 = Some ''Z'' \<and> to_letters 26 = Some ''AA''
   \<and> to_letters 701 = Some ''ZZ'' \<and> to_letters 702 = Some ''AAA''"
proof -
  have "to_letters 0 = Some ''A''" by code_simp
  moreover have "to_letters 25 = Some ''Z''" by code_simp
  moreover have "to_letters 26 = Some ''AA''" by code_simp
  moreover have "to_letters 701 = Some ''ZZ''" by code_simp
  moreover have "to_letters 702 = Some ''AAA''" by code_simp
  moreover have "\<forall>c\<ge>0. \<exists>ls. to_letters c = Some ls \<and> from_letters ls = c"
    using to_letters_round_trip by blast
  ultimately show ?thesis by blast
qed

theorem column_letters_round_trip_witness:
  "(0::int) \<le> 27 \<and> to_letters 27 = Some ''AB'' \<and> from_letters ''AB'' = 27"
proof -
  have e: "to_letters 27 = Some ''AB''" by code_simp
  from column_letters_round_trip
  have "\<exists>ls. to_letters 27 = Some ls \<and> from_letters ls = 27" by simp
  with e show ?thesis by simp
qed

section \<open>The range of a pivot sheet\<close>

lemma a1_origin: "a1 0 0 = Some ''A1''"
  by code_simp

text \<open>
  Claim C2. For a pivot frame with \<open>R\<close> rows and \<open>C \<ge> 1\<close> columns the range rebuilt by \<open>main\<close>
  starts at \<open>A1\<close>, the address of coordinate (0, 0), and ends at the address of coordinate
  (\<open>C - 1\<close>, \<open>R\<close>): the letters of column \<open>C - 1\<close> followed by the row number \<open>R + 1\<close>.
\<close>

theorem pivot_range_corners:
  fixes R C :: nat
  assumes "1 \<le> C"
  shows "\<exists>ls. to_letters (int C - 1) = Some ls \<and> from_letters ls = int C - 1
            \<and> a1 0 0 = Some ''A1''
            \<and> a1 (int C - 1) (int R) = Some (ls @ str_int (int R + 1))
            \<and> main_range (int R) (int C) = Some (''A1:'' @ ls @ str_int (int R + 1))"
proof -
  from assms have "0 \<le> int C - 1" by simp
  from to_letters_round_trip [OF this]
  obtain ls where ls: "to_letters (int C - 1) = Some ls" "from_letters ls = int C - 1" by blast
  have e: "a1 (int C - 1) (int R) = Some (ls @ str_int (int R + 1))"
    using ls(1) by (simp add: a1_def)
  have "main_range (int R) (int C) = Some (''A1:'' @ ls @ str_int (int R + 1))"
    using e a1_origin by (simp add: main_range_def)
  with ls e a1_origin show ?thesis by blast
qed

theorem pivot_range_corners_witness:
  "(1::nat) \<le> 3 \<and> main_range (int 3) (int 3) = Some ''A1:C4'' \<and> a1 (int 3 - 1) (int 3) = Some ''C4''"
proof -
  have l: "to_letters (int 3 - 1) = Some ''C''" by code_simp
  have s: "str_int (int 3 + 1) = ''4''" by code_simp
  from pivot_range_corners [of 3 3] l s show ?thesis by auto
qed

section \<open>The run always ends\<close>

text \<open>
  The frame shapes are non-negative, so \<open>a1\<close> is only called with a column index of at
  least \<open>-1\<close>: the loop over the pivots returns, and \<open>main\<close> never hangs.
\<close>

lemma to_letters_returns:
  assumes "- 1 \<le> c"
  shows "\<exists>ls. to_letters c = Some ls"
proof -
  from a1_loop_value [of "nat (c + 1)" "[]"] assms
  show ?thesis by (auto simp: to_letters_def)
qed

lemma main_range_returns: "\<exists>rng. main_range (int rows) (int cols) = Some rng"
proof -
  obtain ls where "to_letters (int cols - 1) = Some ls"
    using to_letters_returns [of "int cols - 1"] by auto
  then have "a1 (int cols - 1) (int rows) = Some (ls @ str_int (int rows + 1))"
    by (simp add: a1_def)
  then show ?thesis by (simp add: main_range_def a1_origin)
qed

lemma summary_sheets_returns: "summary_sheets E pivots wb \<noteq> None"
proof (induction pivots arbitrary: wb)
  case Nil
  then show ?case by simp
next
  case (Cons x pivots)
  obtain piv_name piv_df where x: "x = (piv_name, piv_df)" by (cases x)
  obtain rows cols where s: "shape E piv_df = (rows, cols)" by (cases "shape E piv_df")
  obtain rng where r: "main_range (int rows) (int cols) = Some rng"
    using main_range_returns by blast
  show ?case
    using Cons.IH by (simp add: x s r Let_def split: sum.splits)
qed

lemma main_returns: "outcome (main E cfg a input_paths wb) \<noteq> Hangs"
proof -
  have ne: "summary_sheets E pivots b = None \<Longrightarrow> False" for pivots b
    using summary_sheets_returns [of E pivots b] by blast
  show ?thesis
    by (auto simp: main_def raised_def finish_def split: sum.splits option.splits prod.splits
             dest: ne)
qed

section \<open>Number formats\<close>

lemma py_in_lower_iff: "py_in (py_lower k) (py_lower s) = contains_ci s k"
proof
  assume "py_in (py_lower k) (py_lower s)"
  then obtain ps ss where "map lower_char s = ps @ map lower_char k @ ss"
    by (auto simp: py_in_def py_lower_def sublist_def)
  then obtain pre rest where a: "s = pre @ rest" "map lower_char rest = map lower_char k @ ss"
    by (metis map_eq_append_conv)
  from a(2) obtain mid post where b: "rest = mid @ post" "map lower_char mid = map lower_char k"
    by (metis map_eq_append_conv)
  with a show "contains_ci s k" unfolding contains_ci_def py_lower_def by blast
next
  assume "contains_ci s k"
  then obtain pre mid post where "s = pre @ mid @ post" "py_lower mid = py_lower k"
    unfolding contains_ci_def by blast
  then have "py_lower s = py_lower pre @ py_lower k @ py_lower post"
    by (simp add: py_lower_def)
  then show "py_in (py_lower k) (py_lower s)"
    unfolding py_in_def sublist_def by blast
qed

lemma keyword_lower: "k \<in> set currency_keywords \<Longrightarrow> py_lower k = k"
  unfolding currency_keywords_def by (auto; code_simp)

text \<open>
  Claim C3. The number format is decided by the dtype and the name alone, and every
  series gets an answer: a date/time column gets \<open>yyyy-mm-dd\<close>; an integer or floating-point
  column gets the currency token when its name contains one of the six keywords regardless
  of case, and the generic token otherwise; a boolean column and every other kind get no
  token. Replacing the cells changes nothing.
\<close>

theorem number_format_by_kind_and_name:
  "auto_number_format s =
     (if dtype s = Datetime64 then Some ''yyyy-mm-dd''
      else if dtype s = Integer \<or> dtype s = Floating then
        (if \<exists>k \<in> {''amount'', ''revenue'', ''price'', ''cost'', ''total'', ''sales''}.
              contains_ci (py_str (name s)) k
         then Some ''$#,##0.00'' else Some ''#,##0.00'')
      else None)
   \<and> auto_number_format (s\<lparr>cells := cs\<rparr>) = auto_number_format s"
proof -
  have set_kw: "set currency_keywords = {''amount'', ''revenue'', ''price'', ''cost'', ''total'', ''sales''}"
    by (simp add: currency_keywords_def)
  have "list_ex (\<lambda>k. py_in k (py_lower (py_str (name s)))) currency_keywords
        = (\<exists>k \<in> set currency_keywords. contains_ci (py_str (name s)) k)"
    unfolding list_ex_iff using py_in_lower_iff keyword_lower by metis
  then have ex: "list_ex (\<lambda>k. py_in k (py_lower (py_str (name s)))) currency_keywords
        = (\<exists>k \<in> {''amount'', ''revenue'', ''price'', ''cost'', ''total'', ''sales''}.
              contains_ci (py_str (name s)) k)"
    unfolding set_kw .
  have a: "auto_number_format s =
     (if dtype s = Datetime64 then Some ''yyyy-mm-dd''
      else if dtype s = Integer \<or> dtype s = Floating then
        (if \<exists>k \<in> {''amount'', ''revenue'', ''price'', ''cost'', ''total'', ''sales''}.
              contains_ci (py_str (name s)) k
         then Some ''$#,##0.00'' else Some ''#,##0.00'')
      else None)"
    unfolding auto_number_format_def is_datetime64_any_dtype_def is_bool_dtype_def
      is_integer_dtype_def is_float_dtype_def Let_def ex
    by (cases "dtype s") simp_all
  have b: "auto_number_format (s\<lparr>cells := cs\<rparr>) = auto_number_format s"
    by (simp add: auto_number_format_def is_datetime64_any_dtype_def is_bool_dtype_def
      is_integer_dtype_def is_float_dtype_def)
  from a b show ?thesis by blast
qed

theorem number_format_by_kind_and_name_witness:
  "contains_ci ''Total Sales'' ''sales''
   \<and> auto_number_format \<lparr>name = SStr ''Total Sales'', dtype = Floating, cells = [''12.5'']\<rparr> = Some ''$#,##0.00''
   \<and> \<not> (\<exists>k \<in> {''amount'', ''revenue'', ''price'', ''cost'', ''total'', ''sales''}. contains_ci ''Quantity'' k)
   \<and> auto_number_format \<lparr>name = SStr ''Quantity'', dtype = Integer, cells = [''3'']\<rparr> = Some ''#,##0.00''"
proof -
  have "py_in (py_lower ''sales'') (py_lower ''Total Sales'')"
    by code_simp
  then have c1: "contains_ci ''Total Sales'' ''sales''"
    by (simp add: py_in_lower_iff)
  have "\<not> list_ex (\<lambda>k. py_in (py_lower k) (py_lower ''Quantity''))
              [''amount'', ''revenue'', ''price'', ''cost'', ''total'', ''sales'']"
    by code_simp
  then have c2: "\<not> (\<exists>k \<in> {''amount'', ''revenue'', ''price'', ''cost'', ''total'', ''sales''}. contains_ci ''Quantity'' k)"
    by (simp add: py_in_lower_iff)
  from c1 have c1': "\<exists>k \<in> {''amount'', ''revenue'', ''price'', ''cost'', ''total'', ''sales''}. contains_ci ''Total Sales'' k"
    by simp
  have "auto_number_format \<lparr>name = SStr ''Total Sales'', dtype = Floating, cells = [''12.5'']\<rparr> = Some ''$#,##0.00''"
    using number_format_by_kind_and_name [of "\<lparr>name = SStr ''Total Sales'', dtype = Floating, cells = [''12.5'']\<rparr>"] c1'
    by simp
  moreover have "auto_number_format \<lparr>name = SStr ''Quantity'', dtype = Integer, cells = [''3'']\<rparr> = Some ''#,##0.00''"
    using number_format_by_kind_and_name [of "\<lparr>name = SStr ''Quantity'', dtype = Integer, cells = [''3'']\<rparr>"] c2
    by simp
  ultimately show ?thesis using c1 c2 by simp
qed

section \<open>Column widths\<close>

lemma fold_max_eq: "fold (\<lambda>y m. if m < y then y else m) xs (x::int) = Max (set (x # xs))"
proof (induction xs arbitrary: x)
  case Nil
  then show ?case by simp
next
  case (Cons a xs)
  have "(if x < a then a else x) = max x a" by (simp add: max_def)
  then have "fold (\<lambda>y m. if m < y then y else m) (a # xs) x = Max (set (max x a # xs))"
    using Cons.IH [of "max x a"] by simp
  also have "\<dots> = Max (set (x # a # xs))"
    by (cases "xs = []") (simp_all add: Max_insert max.assoc)
  finally show ?case .
qed

lemma py_max_Cons: "py_max (x # xs) = Inr (Max (set (x # xs)))"
  by (simp only: py_max.simps fold_max_eq)

lemma best_width_eq: "best_width s cap = Inr (min (widest s + 2) cap)"
  unfolding best_width_def widest_def by (simp only: append_Cons append_Nil py_max_Cons) simp

lemma widest_update:
  assumes "i < length (cells s)" "length (cells s ! i) \<le> length t"
  shows "widest s \<le> widest (s\<lparr>cells := (cells s)[i := t]\<rparr>)"
proof -
  let ?h = "int (length (py_str (name s)))"
  let ?A = "insert ?h ((\<lambda>c. int (length c)) ` set (cells s))"
  let ?B = "insert ?h ((\<lambda>c. int (length c)) ` set ((cells s)[i := t]))"
  have fin: "finite ?A" "finite ?B" by simp_all
  have "\<exists>b\<in>?B. a \<le> b" if "a \<in> ?A" for a
  proof (cases "a = ?h")
    case True
    then show ?thesis by blast
  next
    case False
    with that obtain c where c: "c \<in> set (cells s)" "a = int (length c)" by blast
    then obtain j where j: "j < length (cells s)" "cells s ! j = c"
      by (auto simp: in_set_conv_nth)
    show ?thesis
    proof (cases "j = i")
      case True
      have "t \<in> set ((cells s)[i := t])" using assms(1) by (simp add: set_update_memI)
      moreover have "a \<le> int (length t)" using c(2) j(2) True assms(2) by simp
      ultimately show ?thesis by blast
    next
      case False
      then have "(cells s)[i := t] ! j = c" using j by simp
      then have "c \<in> set ((cells s)[i := t])" using j(1) by (metis length_list_update nth_mem)
      then show ?thesis using c(2) by blast
    qed
  qed
  then have "\<forall>a\<in>?A. a \<le> Max ?B"
    using fin(2) by (meson Max_ge order_trans)
  moreover have "?A \<noteq> {}" by simp
  ultimately have "Max ?A \<le> Max ?B"
    using fin(1) by (metis Max_le_iff)
  then show ?thesis by (simp add: widest_def)
qed

text \<open>
  Claim C8. \<open>best_width\<close> always returns. The width is the largest of the header length and
  the lengths of the rendered cells, plus 2, capped at \<open>max_width\<close> (60 by default): it never
  exceeds the cap, and replacing one cell by a text at least as long never decreases it.
\<close>

theorem best_width_monotone_bounded:
  "\<exists>w. best_width s cap = Inr w \<and> w \<le> cap
       \<and> w = min (Max (insert (int (length (py_str (name s))))
                          ((\<lambda>c. int (length c)) ` set (cells s))) + 2) cap
       \<and> (\<forall>i t. i < length (cells s) \<and> length (cells s ! i) \<le> length t \<longrightarrow>
             (\<exists>w'. best_width (s\<lparr>cells := (cells s)[i := t]\<rparr>) cap = Inr w' \<and> w \<le> w'))
       \<and> best_width_default s = best_width s 60"
proof -
  have mono: "\<exists>w'. best_width (s\<lparr>cells := (cells s)[i := t]\<rparr>) cap = Inr w'
                 \<and> min (widest s + 2) cap \<le> w'"
    if "i < length (cells s) \<and> length (cells s ! i) \<le> length t" for i t
  proof -
    from that widest_update [of i s t]
    have "widest s \<le> widest (s\<lparr>cells := (cells s)[i := t]\<rparr>)" by blast
    then have "min (widest s + 2) cap \<le> min (widest (s\<lparr>cells := (cells s)[i := t]\<rparr>) + 2) cap"
      by simp
    then show ?thesis using best_width_eq by blast
  qed
  have "best_width s cap = Inr (min (widest s + 2) cap)" by (rule best_width_eq)
  moreover have "min (widest s + 2) cap \<le> cap" by simp
  moreover have "min (widest s + 2) cap = min (Max (insert (int (length (py_str (name s))))
                          ((\<lambda>c. int (length c)) ` set (cells s))) + 2) cap"
    by (simp add: widest_def)
  moreover have "best_width_default s = best_width s 60" by (simp add: best_width_default_def)
  ultimately show ?thesis using mono by blast
qed

theorem best_width_monotone_bounded_witness:
  "best_width \<lparr>name = SStr ''qty'', dtype = Integer, cells = [''1'', ''22'']\<rparr> 60 = Inr 5
   \<and> (0::nat) < length [''1'', ''22''] \<and> length ([''1'', ''22''] ! 0) \<le> length ''12345''
   \<and> best_width \<lparr>name = SStr ''qty'', dtype = Integer, cells = [''12345'', ''22'']\<rparr> 60 = Inr 7
   \<and> best_width \<lparr>name = SStr ''qty'', dtype = Integer, cells = [''12345'', ''22'']\<rparr> 6 = Inr 6"
proof -
  let ?s = "\<lparr>name = SStr ''qty'', dtype = Integer, cells = [''1'', ''22'']\<rparr>"
  have a: "best_width ?s 60 = Inr 5" by code_simp
  have b: "best_width \<lparr>name = SStr ''qty'', dtype = Integer, cells = [''12345'', ''22'']\<rparr> 60 = Inr 7"
    by code_simp
  have c: "best_width \<lparr>name = SStr ''qty'', dtype = Integer, cells = [''12345'', ''22'']\<rparr> 6 = Inr 6"
    by code_simp
  from best_width_monotone_bounded [of ?s 60]
  obtain w where w: "best_width ?s 60 = Inr w"
    "\<forall>i t. i < length (cells ?s) \<and> length (cells ?s ! i) \<le> length t \<longrightarrow>
       (\<exists>w'. best_width (?s\<lparr>cells := (cells ?s)[i := t]\<rparr>) 60 = Inr w' \<and> w \<le> w')"
    by blast
  from w(2) [rule_format, of 0 "''12345''"]
  have "\<exists>w'. best_width (?s\<lparr>cells := (cells ?s)[0 := ''12345'']\<rparr>) 60 = Inr w' \<and> w \<le> w'"
    by simp
  with a b c show ?thesis by simp
qed

section \<open>Sheet names\<close>

text \<open>
  Claim C9. The sheet of a source is named by the prefix followed by the first 31
  characters of the file stem, and nothing is cut after the prefix is put in front: with a
  non-empty prefix and a stem of 31 characters or more the name is longer than 31. The
  sheet of a pivot is named by the first 31 characters of \<open>Summary - \<close> followed by the
  pivot name, so it has at most 31. These are the names the sheet writer is called with.
\<close>

theorem sheet_names:
  "source_sheet_name a p = sheet_prefix a @ take 31 (stem p)
   \<and> length (source_sheet_name a p) = length (sheet_prefix a) + min 31 (length (stem p))
   \<and> (sheet_prefix a \<noteq> [] \<and> 31 \<le> length (stem p) \<longrightarrow> 31 < length (source_sheet_name a p))
   \<and> (load_sources E cfg a (p # ps) st = Inr st' \<longrightarrow>
        (\<exists>df opts wb. write_df_to_sheet E df (sheet_prefix a @ take 31 (stem p)) opts (book st) = Inr wb))
   \<and> summary_sheet_name piv_name = take 31 (''Summary - '' @ py_str piv_name)
   \<and> length (summary_sheet_name piv_name) \<le> 31
   \<and> (summary_sheets E ((piv_name, piv_df) # rest) wb0 = Some (Inr wb') \<longrightarrow>
        (\<exists>opts wb1. write_df_to_sheet E piv_df (take 31 (''Summary - '' @ py_str piv_name)) opts wb0 = Inr wb1))"
proof -
  have 1: "source_sheet_name a p = sheet_prefix a @ take 31 (stem p)"
    by (simp add: source_sheet_name_def source_name_def)
  have 2: "length (source_sheet_name a p) = length (sheet_prefix a) + min 31 (length (stem p))"
    by (simp add: 1)
  have 3: "sheet_prefix a \<noteq> [] \<and> 31 \<le> length (stem p) \<longrightarrow> 31 < length (source_sheet_name a p)"
    by (cases "sheet_prefix a") (simp_all add: 2)
  have 4: "load_sources E cfg a (p # ps) st = Inr st' \<longrightarrow>
        (\<exists>df opts wb. write_df_to_sheet E df (sheet_prefix a @ take 31 (stem p)) opts (book st) = Inr wb)"
    by (auto simp: Let_def 1 split: sum.splits)
  have 5: "summary_sheet_name piv_name = take 31 (''Summary - '' @ py_str piv_name)"
    by (simp add: summary_sheet_name_def)
  have 6: "length (summary_sheet_name piv_name) \<le> 31"
    by (simp add: summary_sheet_name_def)
  have 7: "summary_sheets E ((piv_name, piv_df) # rest) wb0 = Some (Inr wb') \<longrightarrow>
        (\<exists>opts wb1. write_df_to_sheet E piv_df (take 31 (''Summary - '' @ py_str piv_name)) opts wb0 = Inr wb1)"
    by (auto simp: Let_def summary_sheet_name_def split: sum.splits)
  from 1 2 3 4 5 6 7 show ?thesis by blast
qed

theorem sheet_names_witness:
  "sheet_prefix demo_args \<noteq> [] \<and> 31 \<le> length (stem long_path)
   \<and> source_sheet_name demo_args long_path = ''Q_a_very_long_file_stem_of_more_t''
   \<and> length (source_sheet_name demo_args long_path) = 33
   \<and> load_sources demo_env (YDict []) demo_args [long_path] \<lparr> frames = Map.empty, book = [] \<rparr>
       = Inr \<lparr> frames = [''a_very_long_file_stem_of_more_t'' \<mapsto> length (stem long_path)], book = [''Q_a_very_long_file_stem_of_more_t''] \<rparr>
   \<and> summary_sheets demo_env [(SStr ''revenue by region and quarter'', 4)] []
       = Some (Inr [''Summary - revenue by region and'']) "
proof -
  have a: "sheet_prefix demo_args \<noteq> []" by (simp add: demo_args_def)
  have b: "31 \<le> length (stem long_path)" by (simp add: long_path_def)
  have c: "sheet_prefix demo_args @ take 31 (stem long_path) = ''Q_a_very_long_file_stem_of_more_t''"
    by (simp add: demo_args_def long_path_def)
  have d: "load_sources demo_env (YDict []) demo_args [long_path] \<lparr> frames = Map.empty, book = [] \<rparr>
       = Inr \<lparr> frames = [''a_very_long_file_stem_of_more_t'' \<mapsto> length (stem long_path)], book = [''Q_a_very_long_file_stem_of_more_t''] \<rparr>"
    by (simp add: demo_env_def demo_args_def long_path_def source_name_def source_sheet_name_def
        find_date_cols_def py_get_def dict_get_def read_frame_def py_lower_def lower_char_def or_true_def)
  have e: "summary_sheets demo_env [(SStr ''revenue by region and quarter'', 4)] []
       = Some (Inr [''Summary - revenue by region and''])"
    by code_simp
  from sheet_names [of demo_args long_path demo_env "YDict []" "[]" "\<lparr> frames = Map.empty, book = [] \<rparr>"
      "\<lparr> frames = [''a_very_long_file_stem_of_more_t'' \<mapsto> length (stem long_path)], book = [''Q_a_very_long_file_stem_of_more_t''] \<rparr>"
      "SStr ''revenue by region and quarter''" 4 "[]" "[]" "[''Summary - revenue by region and'']"] a b c d e
  show ?thesis by simp
qed

section \<open>Pivot specifications\<close>

lemma pivots_loop_append:
  "pivots_loop E fr (xs @ ys) pv err =
     (case pivots_loop E fr xs pv err of
        (err1, Inl e) \<Rightarrow> (err1, Inl e)
      | (err1, Inr pv1) \<Rightarrow> pivots_loop E fr ys pv1 err1)"
proof (induction xs arbitrary: pv err)
  case Nil
  then show ?case by simp
next
  case (Cons x xs)
  show ?case
  proof (cases "pivot_one E fr x")
    case (Inl e)
    then show ?thesis by simp
  next
    case (Inr step)
    then show ?thesis using Cons.IH by (cases step) simp_all
  qed
qed

lemma pivot_one_missing:
  assumes "dict_get d ''source'' (Scalar SNone) = Scalar s"
    and "frames_lookup fr (Scalar s) = Inr None"
  shows "pivot_one E fr (YDict d) = Inr (Skipped (''[warn] pivot source not found: '' @ py_str s))"
  using assms by (simp add: Let_def)

text \<open>
  Claim C6. When the source of a specification is a name that is not in the registry (or
  is missing, or is another scalar), \<open>build_pivots\<close> prints one warning, stores no pivot
  for it and goes on with the remaining specifications, with the pivots built so far
  unchanged.
\<close>

theorem missing_source_skipped:
  assumes "dict_get d ''source'' (Scalar SNone) = Scalar s"
    and "frames_lookup fr (Scalar s) = Inr None"
    and "pivots_loop E fr before [] [] = (err, Inr pivots)"
  shows "pivot_one E fr (YDict d) = Inr (Skipped (''[warn] pivot source not found: '' @ py_str s))
       \<and> build_pivots E (YList (before @ YDict d # rest)) fr =
           pivots_loop E fr rest pivots (err @ [''[warn] pivot source not found: '' @ py_str s])
       \<and> build_pivots E (YList (before @ [YDict d])) fr =
           (err @ [''[warn] pivot source not found: '' @ py_str s], Inr pivots)"
proof -
  note one = pivot_one_missing [OF assms(1,2), of E]
  have step: "pivots_loop E fr (YDict d # ys) pivots err =
      pivots_loop E fr ys pivots (err @ [''[warn] pivot source not found: '' @ py_str s])" for ys
    by (simp only: pivots_loop.simps one sum.case pivot_step.case)
  have "build_pivots E (YList (before @ YDict d # ys)) fr =
      pivots_loop E fr ys pivots (err @ [''[warn] pivot source not found: '' @ py_str s])" for ys
    by (simp add: build_pivots_def pivots_loop_append assms(3) step del: pivots_loop.simps)
  from this [of rest] this [of "[]"] one show ?thesis by simp
qed

theorem missing_source_skipped_witness:
  "dict_get [(''source'', Scalar (SStr ''nope''))] ''source'' (Scalar SNone) = Scalar (SStr ''nope'')
   \<and> frames_lookup [''sales'' \<mapsto> (7::nat)] (Scalar (SStr ''nope'')) = Inr None
   \<and> pivots_loop demo_env [''sales'' \<mapsto> 7] [YDict [(''source'', Scalar (SStr ''sales''))]] [] []
        = ([], Inr [(SStr ''pivot_sales'', 7)])
   \<and> build_pivots demo_env
        (YList ([YDict [(''source'', Scalar (SStr ''sales''))]]
                @ YDict [(''source'', Scalar (SStr ''nope''))]
                # [YDict [(''source'', Scalar (SStr ''sales'')), (''name'', Scalar (SStr ''again''))]]))
        [''sales'' \<mapsto> 7]
        = ([''[warn] pivot source not found: nope''],
           Inr [(SStr ''pivot_sales'', 7), (SStr ''again'', 7)])"
proof -
  let ?fr = "[''sales'' \<mapsto> (7::nat)]"
  have a: "dict_get [(''source'', Scalar (SStr ''nope''))] ''source'' (Scalar SNone) = Scalar (SStr ''nope'')"
    by (simp add: dict_get_def)
  have b: "frames_lookup ?fr (Scalar (SStr ''nope'')) = Inr None" by simp
  have c: "pivots_loop demo_env ?fr [YDict [(''source'', Scalar (SStr ''sales''))]] [] []
        = ([], Inr [(SStr ''pivot_sales'', 7)])"
    by (simp add: demo_env_def dict_get_def)
  have d: "pivots_loop demo_env ?fr
             [YDict [(''source'', Scalar (SStr ''sales'')), (''name'', Scalar (SStr ''again''))]]
             [(SStr ''pivot_sales'', 7)] ([] @ [''[warn] pivot source not found: '' @ py_str (SStr ''nope'')])
        = ([''[warn] pivot source not found: nope''], Inr [(SStr ''pivot_sales'', 7), (SStr ''again'', 7)])"
    by (simp add: demo_env_def dict_get_def py_key_eq_def)
  from missing_source_skipped [OF a b c,
      of "[YDict [(''source'', Scalar (SStr ''sales'')), (''name'', Scalar (SStr ''again''))]]"] d a b c
  show ?thesis by simp
qed

text \<open>
  Claim C7 says that a failure raised while one specification is processed does not stop
  the later ones. \<open>build_pivots\<close> and \<open>main\<close> catch no exception: a list item that is not a
  mapping makes \<open>p.get\<close> raise, the valid specification after it is never processed, and
  \<open>main\<close> raises instead of writing the summary sheet it writes for that specification alone.
\<close>

theorem failure_not_isolated_counterexample:
  "build_pivots demo_env bad_then_good [''sales'' \<mapsto> 5] = ([], Inl AttributeError)
   \<and> build_pivots demo_env (YList [YDict [(''source'', Scalar (SStr ''sales''))]]) [''sales'' \<mapsto> 5]
        = ([], Inr [(SStr ''pivot_sales'', 5)])
   \<and> main demo_env (YDict [(''pivots'', bad_then_good)]) demo_args [sales_path] []
        = \<lparr> stdout = [], stderr = [], outcome = Raised AttributeError \<rparr>
   \<and> main demo_env (YDict [(''pivots'', YList [YDict [(''source'', Scalar (SStr ''sales''))]])]) demo_args [sales_path] []
        = \<lparr> stdout = [''Wrote report.xlsx''], stderr = [],
            outcome = Exit 0 (Some [''Q_sales'', ''Summary - pivot_sales'']) \<rparr>"
proof -
  have 1: "build_pivots demo_env bad_then_good [''sales'' \<mapsto> 5] = ([], Inl AttributeError)"
    by (simp add: build_pivots_def bad_then_good_def)
  have 2: "build_pivots demo_env (YList [YDict [(''source'', Scalar (SStr ''sales''))]]) [''sales'' \<mapsto> 5]
        = ([], Inr [(SStr ''pivot_sales'', 5)])"
    by (simp add: build_pivots_def demo_env_def dict_get_def)
  have 3: "main demo_env (YDict [(''pivots'', bad_then_good)]) demo_args [sales_path] []
        = \<lparr> stdout = [], stderr = [], outcome = Raised AttributeError \<rparr>"
    by code_simp
  have 4: "main demo_env (YDict [(''pivots'', YList [YDict [(''source'', Scalar (SStr ''sales''))]])]) demo_args [sales_path] []
        = \<lparr> stdout = [''Wrote report.xlsx''], stderr = [],
            outcome = Exit 0 (Some [''Q_sales'', ''Summary - pivot_sales'']) \<rparr>"
    by code_simp
  from 1 2 3 4 show ?thesis by simp
qed

text \<open>
  Claim C7 as amended. An exception raised while a specification is processed leaves
  \<open>build_pivots\<close> at once with the warnings printed so far: no later specification is
  processed and no pivot is returned, and \<open>main\<close> raises the same exception without writing
  a summary sheet or closing the workbook. Only a missing source is skipped.
\<close>

theorem failure_aborts_run:
  assumes "pivots_loop E fr before [] [] = (err, Inr pivots)"
    and "pivot_one E fr p = Inl e"
  shows "build_pivots E (YList (before @ p # rest)) fr = (err, Inl e)
       \<and> (input_paths \<noteq> []
            \<and> load_sources E cfg a input_paths \<lparr> frames = Map.empty, book = wb0 \<rparr> = Inr st
            \<and> frames st = fr
            \<and> py_get cfg ''pivots'' = Inr (YList (before @ p # rest))
          \<longrightarrow> main E cfg a input_paths wb0 = \<lparr> stdout = [], stderr = err, outcome = Raised e \<rparr>)"
proof -
  have b: "build_pivots E (YList (before @ p # rest)) fr = (err, Inl e)"
    by (simp add: build_pivots_def pivots_loop_append assms del: pivots_loop.simps)
       (simp add: assms(2))
  have "main E cfg a input_paths wb0 = \<lparr> stdout = [], stderr = err, outcome = Raised e \<rparr>"
    if "input_paths \<noteq> []"
      "load_sources E cfg a input_paths \<lparr> frames = Map.empty, book = wb0 \<rparr> = Inr st"
      "frames st = fr"
      "py_get cfg ''pivots'' = Inr (YList (before @ p # rest))"
    using that b by (simp add: main_def raised_def)
  with b show ?thesis by blast
qed

theorem failure_aborts_run_witness:
  "pivots_loop demo_env [''sales'' \<mapsto> 5] [YDict [(''source'', Scalar (SStr ''sales''))]] [] []
      = ([], Inr [(SStr ''pivot_sales'', 5)])
   \<and> pivot_one demo_env [''sales'' \<mapsto> 5] (YDict [(''source'', YList [])]) = Inl TypeError
   \<and> build_pivots demo_env
        (YList ([YDict [(''source'', Scalar (SStr ''sales''))]] @ YDict [(''source'', YList [])]
                # [YDict [(''source'', Scalar (SStr ''sales'')), (''name'', Scalar (SStr ''later''))]]))
        [''sales'' \<mapsto> 5]
      = ([], Inl TypeError)"
proof -
  have a: "pivots_loop demo_env [''sales'' \<mapsto> 5] [YDict [(''source'', Scalar (SStr ''sales''))]] [] []
      = ([], Inr [(SStr ''pivot_sales'', 5)])"
    by (simp add: demo_env_def dict_get_def)
  have b: "pivot_one demo_env [''sales'' \<mapsto> 5] (YDict [(''source'', YList [])]) = Inl TypeError"
    by (simp add: dict_get_def)
  from failure_aborts_run [OF a b] a b show ?thesis by blast
qed

section \<open>The registry of loaded frames\<close>

lemma load_sources_step:
  assumes "load_sources E cfg a (p # ps) st = Inr st'"
  obtains dc df wb where "find_date_cols cfg (source_name p) = Inr dc"
    and "read_frame E p dc = Inr df"
    and "load_sources E cfg a ps \<lparr> frames = (frames st)(source_name p \<mapsto> df), book = wb \<rparr> = Inr st'"
  using assms by (auto simp: Let_def split: sum.splits)

lemma load_sources_append:
  "load_sources E cfg a (xs @ ys) st =
     (case load_sources E cfg a xs st of Inl e \<Rightarrow> Inl e | Inr st1 \<Rightarrow> load_sources E cfg a ys st1)"
  by (induction xs arbitrary: st) (auto simp: Let_def split: sum.splits)

lemma load_sources_other:
  assumes "load_sources E cfg a ps st = Inr st'" "\<forall>q\<in>set ps. source_name q \<noteq> nm"
  shows "frames st' nm = frames st nm"
  using assms
proof (induction ps arbitrary: st)
  case Nil
  then show ?case by simp
next
  case (Cons p ps)
  from Cons.prems(1) obtain dc df wb where
    r: "load_sources E cfg a ps \<lparr> frames = (frames st)(source_name p \<mapsto> df), book = wb \<rparr> = Inr st'"
    by (rule load_sources_step)
  from Cons.IH [OF r] Cons.prems(2) show ?case by auto
qed

lemma load_sources_dom:
  assumes "load_sources E cfg a ps st = Inr st'"
  shows "dom (frames st') = dom (frames st) \<union> source_name ` set ps"
  using assms
proof (induction ps arbitrary: st)
  case Nil
  then show ?case by simp
next
  case (Cons p ps)
  from Cons.prems(1) obtain dc df wb where
    r: "load_sources E cfg a ps \<lparr> frames = (frames st)(source_name p \<mapsto> df), book = wb \<rparr> = Inr st'"
    by (rule load_sources_step)
  from Cons.IH [OF r] show ?case by auto
qed

lemma load_sources_last:
  assumes "load_sources E cfg a (before @ p # post) st = Inr st'"
    and "\<forall>q\<in>set post. source_name q \<noteq> source_name p"
  shows "\<exists>dc df. find_date_cols cfg (source_name p) = Inr dc \<and> read_frame E p dc = Inr df
                \<and> frames st' (source_name p) = Some df"
proof -
  from assms(1) obtain st1 where s1: "load_sources E cfg a before st = Inr st1"
    and s2: "load_sources E cfg a (p # post) st1 = Inr st'"
    by (auto simp: load_sources_append split: sum.splits)
  from s2 obtain dc df wb where d: "find_date_cols cfg (source_name p) = Inr dc"
    "read_frame E p dc = Inr df"
    and r: "load_sources E cfg a post \<lparr> frames = (frames st1)(source_name p \<mapsto> df), book = wb \<rparr> = Inr st'"
    by (rule load_sources_step)
  from load_sources_other [OF r assms(2)] have "frames st' (source_name p) = Some df" by simp
  with d show ?thesis by blast
qed

lemma pivot_one_same_frame:
  assumes "dict_get d ''source'' (Scalar SNone) = Scalar (SStr nm)" "fr nm = fr' nm"
  shows "pivot_one E fr (YDict d) = pivot_one E fr' (YDict d)"
  using assms by (simp add: Let_def)

text \<open>
  Claim C10. The registry is keyed by the first 31 characters of the file stems. When two
  inputs have the same truncated stem and the run gets through the loading loop, the
  registry holds under that key the frame read from the later one (the earlier one was
  there after its own turn), and a pivot specification naming that key is computed exactly
  as if the later frame were the only one registered.
\<close>

theorem registry_last_wins:
  assumes "load_sources E cfg a (before @ p1 # mid @ p2 # post) st = Inr st'"
    and "source_name p1 = source_name p2"
    and "\<forall>q\<in>set post. source_name q \<noteq> source_name p2"
  shows "\<exists>dc df2. find_date_cols cfg (take 31 (stem p2)) = Inr dc \<and> read_frame E p2 dc = Inr df2
           \<and> frames st' (take 31 (stem p2)) = Some df2
           \<and> (\<forall>d. dict_get d ''source'' (Scalar SNone) = Scalar (SStr (take 31 (stem p2)))
                 \<longrightarrow> pivot_one E (frames st') (YDict d) = pivot_one E [take 31 (stem p2) \<mapsto> df2] (YDict d))
           \<and> (\<exists>st1 dc1 df1. load_sources E cfg a (before @ [p1]) st = Inr st1
                 \<and> read_frame E p1 dc1 = Inr df1 \<and> frames st1 (take 31 (stem p2)) = Some df1)
           \<and> dom (frames st') = dom (frames st) \<union> (\<lambda>q. take 31 (stem q)) ` set (before @ p1 # mid @ p2 # post)"
proof -
  have nm: "source_name q = take 31 (stem q)" for q by (simp add: source_name_def)
  have "load_sources E cfg a ((before @ p1 # mid) @ p2 # post) st = Inr st'"
    using assms(1) by simp
  from load_sources_last [OF this assms(3)]
  obtain dc df2 where d2: "find_date_cols cfg (source_name p2) = Inr dc" "read_frame E p2 dc = Inr df2"
    "frames st' (source_name p2) = Some df2" by blast
  have piv: "pivot_one E (frames st') (YDict d) = pivot_one E [source_name p2 \<mapsto> df2] (YDict d)"
    if "dict_get d ''source'' (Scalar SNone) = Scalar (SStr (source_name p2))" for d
    by (rule pivot_one_same_frame [OF that]) (simp add: d2(3))
  have "load_sources E cfg a ((before @ [p1]) @ mid @ p2 # post) st = Inr st'"
    using assms(1) by simp
  then obtain st1 where s1: "load_sources E cfg a (before @ [p1]) st = Inr st1"
    by (auto simp only: load_sources_append split: sum.splits)
  from load_sources_last [of E cfg a before p1 "[]" st st1] s1
  obtain dc1 df1 where d1: "read_frame E p1 dc1 = Inr df1" "frames st1 (source_name p1) = Some df1"
    by auto
  have dm: "dom (frames st') = dom (frames st) \<union> source_name ` set (before @ p1 # mid @ p2 # post)"
    by (rule load_sources_dom [OF assms(1)])
  have sn: "source_name = (\<lambda>q. take 31 (stem q))" by (rule ext) (rule nm)
  have A: "\<exists>st1 dc1 df1. load_sources E cfg a (before @ [p1]) st = Inr st1
                 \<and> read_frame E p1 dc1 = Inr df1 \<and> frames st1 (take 31 (stem p2)) = Some df1"
    using s1 d1 assms(2) by (auto simp: nm)
  have P: "\<forall>d. dict_get d ''source'' (Scalar SNone) = Scalar (SStr (take 31 (stem p2)))
                 \<longrightarrow> pivot_one E (frames st') (YDict d) = pivot_one E [take 31 (stem p2) \<mapsto> df2] (YDict d)"
    using piv by (simp add: nm)
  have D: "dom (frames st') = dom (frames st) \<union> (\<lambda>q. take 31 (stem q)) ` set (before @ p1 # mid @ p2 # post)"
    using dm unfolding sn .
  have F: "find_date_cols cfg (take 31 (stem p2)) = Inr dc" "frames st' (take 31 (stem p2)) = Some df2"
    using d2 by (simp_all add: nm)
  show ?thesis
    by (intro exI [of _ dc] exI [of _ df2] conjI F d2(2) P A D)
qed

theorem registry_last_wins_witness:
  "load_sources demo_env (YDict []) demo_args ([] @ north_path # [] @ south_path # [])
      \<lparr> frames = Map.empty, book = [] \<rparr> = Inr both_loaded
   \<and> source_name north_path = source_name south_path
   \<and> length (stem north_path) = 39 \<and> length (stem south_path) = 42
   \<and> frames both_loaded (take 31 (stem south_path)) = Some 42
   \<and> pivot_one demo_env (frames both_loaded)
        (YDict [(''source'', Scalar (SStr ''quarterly_sales_report_for_regi''))])
      = Inr (Built (SStr ''pivot_quarterly_sales_report_for_regi'') 42)"
proof -
  have l1: "length (stem north_path) = 39" by (simp add: north_path_def)
  have l2: "length (stem south_path) = 42" by (simp add: south_path_def)
  have t2: "take 31 (stem south_path) = ''quarterly_sales_report_for_regi''"
    by (simp add: south_path_def)
  have lo: "py_lower ''.csv'' = ''.csv''" "py_lower ''.CSV'' = ''.csv''" by code_simp+
  have a: "load_sources demo_env (YDict []) demo_args ([] @ north_path # [] @ south_path # [])
      \<lparr> frames = Map.empty, book = [] \<rparr> = Inr both_loaded"
    by (simp add: demo_env_def demo_args_def north_path_def south_path_def both_loaded_def
        source_name_def source_sheet_name_def find_date_cols_def py_get_def dict_get_def
        read_frame_def lo or_true_def)
  have b: "source_name north_path = source_name south_path"
    by (simp add: source_name_def north_path_def south_path_def)
  have c: "\<forall>q\<in>set []. source_name q \<noteq> source_name south_path" by simp
  from registry_last_wins [OF a b c]
  obtain dc df2 where r: "read_frame demo_env south_path dc = Inr df2"
    "frames both_loaded (take 31 (stem south_path)) = Some df2"
    "\<forall>d. dict_get d ''source'' (Scalar SNone) = Scalar (SStr (take 31 (stem south_path)))
        \<longrightarrow> pivot_one demo_env (frames both_loaded) (YDict d)
            = pivot_one demo_env [take 31 (stem south_path) \<mapsto> df2] (YDict d)"
    by blast
  have "read_frame demo_env south_path dc = Inr (length (stem south_path))"
    by (simp add: read_frame_def demo_env_def south_path_def lo)
  with r(1) l2 have df2: "df2 = 42" by simp
  have g: "dict_get [(''source'', Scalar (SStr ''quarterly_sales_report_for_regi''))] ''source'' (Scalar SNone)
      = Scalar (SStr (take 31 (stem south_path)))"
    by (simp add: dict_get_def t2)
  have "pivot_one demo_env [take 31 (stem south_path) \<mapsto> df2]
          (YDict [(''source'', Scalar (SStr ''quarterly_sales_report_for_regi''))])
      = Inr (Built (SStr ''pivot_quarterly_sales_report_for_regi'') 42)"
    by (simp add: t2 df2 dict_get_def demo_env_def)
  with r(3) [rule_format, OF g]
  have p: "pivot_one demo_env (frames both_loaded)
        (YDict [(''source'', Scalar (SStr ''quarterly_sales_report_for_regi''))])
      = Inr (Built (SStr ''pivot_quarterly_sales_report_for_regi'') 42)" by simp
  from a b l1 l2 r(2) df2 p show ?thesis by simp
qed

section \<open>Chart ranges\<close>

lemma py_split_no_sep: "sep \<notin> set s \<Longrightarrow> py_split sep s = [s]"
  by (induction s) auto

lemma py_split_at: "sep \<notin> set xs \<Longrightarrow> py_split sep (xs @ sep # ys) = xs # py_split sep ys"
  by (induction xs) auto

lemma digit_char_ascii:
  assumes "d < 10"
  shows "ascii_digit (digit_char d)"
proof -
  from assms have "(48 + d) mod 256 = 48 + d" by simp
  then have "(of_char (char_of (48 + d)) :: nat) = 48 + d" by (simp add: of_char_of)
  with assms show ?thesis by (simp add: ascii_digit_def)
qed

lemma str_nat_digits: "list_all ascii_digit (str_nat n)"
proof (induction n rule: str_nat.induct)
  case (1 n)
  show ?case
  proof (cases "n < 10")
    case True
    then show ?thesis by (subst str_nat.simps) (simp add: digit_char_ascii del: digit_char.simps)
  next
    case False
    have "ascii_digit (digit_char (n mod 10))" by (rule digit_char_ascii) simp
    with False 1 show ?thesis by (subst str_nat.simps) (simp del: digit_char.simps)
  qed
qed

lemma colon_not_digit: "ascii_digit c \<Longrightarrow> c \<noteq> CHR '':''"
  by (auto simp: ascii_digit_def)

lemma colon_not_upper: "upper_letter c \<Longrightarrow> c \<noteq> CHR '':''"
  by (auto simp: upper_letter_def)

lemma str_int_no_colon: "0 \<le> i \<Longrightarrow> CHR '':'' \<notin> set (str_int i)"
  using str_nat_digits [of "nat i"] colon_not_digit by (auto simp: str_int_def list_all_iff)

lemma single_letter:
  assumes "0 \<le> c" "c < 26"
  shows "to_letters c = Some [char_of (65 + c)]"
proof -
  have "(c + 1 - 1) div 26 = 0" "(c + 1 - 1) mod 26 = c" using assms by simp_all
  moreover have "c + 1 \<noteq> 0" using assms by simp
  ultimately show ?thesis
    unfolding to_letters_def
    by (subst a1_loop.simps, simp, subst a1_loop.simps, simp)
qed

lemma first_cell: "py_rstrip ''0123456789'' ''A1'' = ''A''" "filter py_isdigit ''A1'' = ''1''"
  "py_int ''1'' = Inr 1" "py_ord ''A'' = Inr 65" "py_chr (65 + 1) = Inr ''B''" "str_int 1 = ''1''"
  by code_simp+

lemma py_item_second: "py_item [a, b] 1 = Inr b"
  by (simp add: py_item_def)

lemma chart_ranges_A1:
  assumes "CHR '':'' \<notin> set e"
  shows "chart_ranges sheet (''A1:'' @ e) =
         Inr \<lparr> categories = ''='' @ sheet @ ''!A1:A'' @ drop 1 e,
               values_ref = ''='' @ sheet @ ''!B1:'' @ e \<rparr>"
proof -
  have sp: "py_split CHR '':'' (''A1:'' @ e) = [''A1'', e]"
    using py_split_at [of "CHR '':''" "''A1''" e] py_split_no_sep [OF assms] by simp
  show ?thesis
    by (simp only: chart_ranges_def sp Let_def list.sel first_cell py_item_second sum.case) simp
qed

text \<open>
  Claim C5 as amended. For a pivot frame with \<open>R\<close> rows and \<open>C\<close> columns, \<open>C\<close> between 2 and 26,
  \<open>main\<close> hands over the range from the address of coordinate (0, 0) to the address of
  coordinate (\<open>C - 1\<close>, \<open>R\<close>). The category range then runs from the address of (0, 0) to the
  address of (0, \<open>R\<close>), and the value range from the address of (1, 0) to the address of
  (\<open>C - 1\<close>, \<open>R\<close>): column 0, and columns 1 to the last, each over every row of the range
  handed over, its first row (coordinate row 0) included.
\<close>

theorem chart_ranges_of_pivot:
  fixes R C :: nat
  assumes "2 \<le> C" "C \<le> 26"
  shows "\<exists>rng top_left cat_end val_start bottom_right.
           main_range (int R) (int C) = Some rng
         \<and> rng = top_left @ '':'' @ bottom_right
         \<and> a1 0 0 = Some top_left \<and> a1 0 (int R) = Some cat_end
         \<and> a1 1 0 = Some val_start \<and> a1 (int C - 1) (int R) = Some bottom_right
         \<and> chart_ranges sheet rng =
             Inr \<lparr> categories = ''='' @ sheet @ ''!'' @ top_left @ '':'' @ cat_end,
                   values_ref = ''='' @ sheet @ ''!'' @ val_start @ '':'' @ bottom_right \<rparr>"
proof -
  define l where "l = (char_of (65 + (int C - 1)) :: char)"
  define row where "row = str_int (int R + 1)"
  have tl: "to_letters (int C - 1) = Some [l]"
    using assms single_letter [of "int C - 1"] by (simp add: l_def)
  have up: "upper_letter l"
    unfolding l_def using assms by (intro upper_letter_char_of) simp_all
  have br: "a1 (int C - 1) (int R) = Some (l # row)" by (simp add: a1_def tl row_def)
  have tA: "to_letters 0 = Some ''A''" "to_letters 1 = Some ''B''" by code_simp+
  have ce: "a1 0 (int R) = Some (''A'' @ row)" by (simp add: a1_def tA row_def)
  have vs: "a1 1 0 = Some ''B1''" by (simp add: a1_def tA first_cell)
  have o: "a1 0 0 = Some ''A1''" by (simp add: a1_def tA first_cell)
  have rng: "main_range (int R) (int C) = Some (''A1:'' @ l # row)"
    by (simp add: main_range_def o br)
  have "CHR '':'' \<notin> set (l # row)"
    using colon_not_upper [OF up] str_int_no_colon [of "int R + 1"] by (auto simp: row_def)
  from chart_ranges_A1 [OF this, of sheet]
  have "chart_ranges sheet (''A1:'' @ l # row) =
          Inr \<lparr> categories = ''='' @ sheet @ ''!'' @ ''A1'' @ '':'' @ (''A'' @ row),
                values_ref = ''='' @ sheet @ ''!'' @ ''B1'' @ '':'' @ (l # row) \<rparr>"
    by simp
  moreover have "''A1:'' @ l # row = ''A1'' @ '':'' @ (l # row)" by simp
  ultimately show ?thesis
    using rng o ce vs br
    by (intro exI [of _ "''A1:'' @ l # row"] exI [of _ "''A1''"] exI [of _ "''A'' @ row"]
          exI [of _ "''B1''"] exI [of _ "l # row"] conjI)
qed

theorem chart_ranges_of_pivot_witness:
  "(2::nat) \<le> 3 \<and> (3::nat) \<le> 26
   \<and> main_range (int 3) (int 3) = Some ''A1:C4''
   \<and> chart_ranges ''Summary - by_region'' ''A1:C4'' =
         Inr \<lparr> categories = ''=Summary - by_region!A1:A4'',
               values_ref = ''=Summary - by_region!B1:C4'' \<rparr>"
proof -
  have e: "main_range (int 3) (int 3) = Some ''A1:C4''" "a1 0 0 = Some ''A1''"
    "a1 0 (int 3) = Some ''A4''" "a1 1 0 = Some ''B1''" "a1 (int 3 - 1) (int 3) = Some ''C4''"
    by code_simp+
  from chart_ranges_of_pivot [of 3 3 "''Summary - by_region''"] e
  show ?thesis by auto
qed

text \<open>
  Claim C5 says that both ranges leave the header row out. The range handed over starts
  at \<open>A1\<close>, the address of coordinate (0, 0), in the row where the column headers are
  written. For a pivot with 3 rows and 3 columns, ranges without that row would be \<open>A2:A4\<close>
  and \<open>B2:C4\<close>; the code gives \<open>A1:A4\<close> and \<open>B1:C4\<close>, which start in it. With 27
  columns the category range is \<open>A1:AA4\<close>, more than column 0.
\<close>

theorem chart_ranges_header_counterexample:
  "main_range 3 3 = Some ''A1:C4''
   \<and> a1 0 1 = Some ''A2'' \<and> a1 0 3 = Some ''A4'' \<and> a1 1 1 = Some ''B2'' \<and> a1 2 3 = Some ''C4''
   \<and> chart_ranges ''Summary - by_region'' ''A1:C4''
        \<noteq> Inr \<lparr> categories = ''=Summary - by_region!A2:A4'',
                 values_ref = ''=Summary - by_region!B2:C4'' \<rparr>
   \<and> chart_ranges ''Summary - by_region'' ''A1:C4''
        = Inr \<lparr> categories = ''=Summary - by_region!A1:A4'',
                 values_ref = ''=Summary - by_region!B1:C4'' \<rparr>
   \<and> main_range 3 27 = Some ''A1:AA4''
   \<and> chart_ranges ''Summary - by_region'' ''A1:AA4''
        = Inr \<lparr> categories = ''=Summary - by_region!A1:AA4'',
                 values_ref = ''=Summary - by_region!B1:AA4'' \<rparr>"
proof -
  have 1: "main_range 3 3 = Some ''A1:C4''" by code_simp
  have 2: "a1 0 1 = Some ''A2''" "a1 0 3 = Some ''A4''" "a1 1 1 = Some ''B2''" "a1 2 3 = Some ''C4''"
    by code_simp+
  have 3: "chart_ranges ''Summary - by_region'' ''A1:C4''
        = Inr \<lparr> categories = ''=Summary - by_region!A1:A4'',
                 values_ref = ''=Summary - by_region!B1:C4'' \<rparr>"
    by code_simp
  have 4: "main_range 3 27 = Some ''A1:AA4''" by code_simp
  have 5: "chart_ranges ''Summary - by_region'' ''A1:AA4''
        = Inr \<lparr> categories = ''=Summary - by_region!A1:AA4'',
                 values_ref = ''=Summary - by_region!B1:AA4'' \<rparr>"
    by code_simp
  from 1 2 3 4 5 show ?thesis by simp
qed

end
